theory Spec2Isabelle
  imports Main "HOL-Library.Word"
begin

section \<open>JavaScript values and strings\<close>

text \<open>
  The server (\<^verbatim>\<open>backend/server.js\<close>) receives JSON request bodies. A JavaScript
  string is a sequence of UTF-16 code units; \<^verbatim>\<open>.length\<close> counts code units.
\<close>

type_synonym jsstring = "16 word list"

text \<open>An ASCII literal of the source as a JavaScript string.\<close>

definition js :: "string \<Rightarrow> jsstring" where
  "js s = map (\<lambda>c. of_nat (of_char c)) s"

text \<open>
  The values \<^verbatim>\<open>express.json()\<close> can put into a property of \<^verbatim>\<open>req.body\<close>;
  \<open>JUndefined\<close> is what destructuring yields for a property the body does not have.
  JSON numbers are kept as integers: the program only ever tests a number for being zero
  (through \<^verbatim>\<open>!v\<close>).
\<close>

datatype jsval =
    JUndefined
  | JNull
  | JBool bool
  | JNumber int
  | JString jsstring
  | JArray "jsval list"
  | JObject "(jsstring \<times> jsval) list"

text \<open>\<^verbatim>\<open>!v\<close> is \<open>\<not> truthy v\<close>.\<close>

fun truthy :: "jsval \<Rightarrow> bool" where
  "truthy JUndefined = False"
| "truthy JNull = False"
| "truthy (JBool b) = b"
| "truthy (JNumber n) = (n \<noteq> 0)"
| "truthy (JString s) = (s \<noteq> [])"
| "truthy (JArray xs) = True"
| "truthy (JObject kvs) = True"

text \<open>\<^verbatim>\<open>typeof v === "string"\<close>\<close>

fun typeof_string :: "jsval \<Rightarrow> bool" where
  "typeof_string (JString s) = True"
| "typeof_string v = False"

text \<open>
  The code points ECMAScript classifies as WhiteSpace or LineTerminator: what
  \<^verbatim>\<open>String.prototype.trim\<close> strips and what \<^verbatim>\<open>\s\<close> matches in a regular
  expression. All of them are single code units.
\<close>

definition isWhiteSpace :: "16 word \<Rightarrow> bool" where
  "isWhiteSpace c \<longleftrightarrow> c \<in> set [0x0009, 0x000A, 0x000B, 0x000C, 0x000D, 0x0020, 0x00A0,
     0x1680, 0x2000, 0x2001, 0x2002, 0x2003, 0x2004, 0x2005, 0x2006, 0x2007, 0x2008,
     0x2009, 0x200A, 0x2028, 0x2029, 0x202F, 0x205F, 0x3000, 0xFEFF]"

text \<open>\<^verbatim>\<open>s.trim()\<close> on a string.\<close>

definition trim :: "jsstring \<Rightarrow> jsstring" where
  "trim s = rev (dropWhile isWhiteSpace (rev (dropWhile isWhiteSpace s)))"

text \<open>
  The exception the handlers' own code can throw: calling \<^verbatim>\<open>.trim()\<close> on anything
  but a string is a TypeError (no JSON value other than a string has a callable
  \<^verbatim>\<open>trim\<close> property).
\<close>

datatype js_error = TypeError

text \<open>\<^verbatim>\<open>v.trim()\<close> on an arbitrary value.\<close>

fun js_trim :: "jsval \<Rightarrow> js_error + jsstring" where
  "js_trim (JString s) = Inr (trim s)"
| "js_trim v = Inl TypeError"

section \<open>Validation\<close>

text \<open>
  \<^verbatim>\<open>/^[^\s@]+@[^\s@]+\.[^\s@]+$/\<close>: the class \<^verbatim>\<open>[^\s@]\<close>, then the test. The
  first \<^verbatim>\<open>[^\s@]+\<close> is followed by \<^verbatim>\<open>@\<close>, which is outside the class, so it
  is the longest prefix inside the class; the rest must lie inside the class and hold a
  dot (0x2E) that is neither its first nor its last code unit.
\<close>

definition notSpaceOrAt :: "16 word \<Rightarrow> bool" where
  "notSpaceOrAt c \<longleftrightarrow> \<not> isWhiteSpace c \<and> c \<noteq> 0x40"

definition emailRegex_test :: "jsstring \<Rightarrow> bool" where
  "emailRegex_test s =
     (takeWhile notSpaceOrAt s \<noteq> [] \<and>
      (case dropWhile notSpaceOrAt s of
         [] \<Rightarrow> False
       | c # d \<Rightarrow> c = 0x40 \<and> list_all notSpaceOrAt d \<and>
           list_ex (\<lambda>j. d ! j = 0x2E) [1 ..< length d - 1]))"

text \<open>The \<^verbatim>\<open>{ email, password, username }\<close> argument, as destructured from the body.\<close>

record payload =
  email :: jsval
  password :: jsval
  username :: jsval

text \<open>
  The three blocks of \<^verbatim>\<open>validateAuthPayload\<close> (lines 43-55, 58-67, 71-80), each
  returning the messages it pushes. The condition
  \<^verbatim>\<open>!v || typeof v !== "string" || !v.trim()\<close> is evaluated left to right and stops at
  the first true disjunct.
\<close>

definition email_checks :: "jsval \<Rightarrow> js_error + string list" where
  "email_checks v =
     (if \<not> truthy v then Inr [''Email is required.'']
      else if \<not> typeof_string v then Inr [''Email is required.'']
      else case js_trim v of
        Inl e \<Rightarrow> Inl e
      | Inr trimmedEmail \<Rightarrow>
          if \<not> truthy (JString trimmedEmail) then Inr [''Email is required.'']
          else if length trimmedEmail > 254
            then Inr [''Email must be 254 characters or less.'']
          else if \<not> emailRegex_test trimmedEmail then Inr [''Email format is invalid.'']
          else Inr [])"

definition password_checks :: "jsval \<Rightarrow> js_error + string list" where
  "password_checks v =
     (if \<not> truthy v then Inr [''Password is required.'']
      else if \<not> typeof_string v then Inr [''Password is required.'']
      else case js_trim v of
        Inl e \<Rightarrow> Inl e
      | Inr trimmedPassword \<Rightarrow>
          if \<not> truthy (JString trimmedPassword) then Inr [''Password is required.'']
          else if length trimmedPassword < 8
            then Inr [''Password must be at least 8 characters long.'']
          else if length trimmedPassword > 128
            then Inr [''Password must be 128 characters or less.'']
          else Inr [])"

definition username_checks :: "jsval \<Rightarrow> js_error + string list" where
  "username_checks v =
     (if \<not> truthy v then Inr [''Username is required.'']
      else if \<not> typeof_string v then Inr [''Username is required.'']
      else case js_trim v of
        Inl e \<Rightarrow> Inl e
      | Inr trimmedUsername \<Rightarrow>
          if \<not> truthy (JString trimmedUsername) then Inr [''Username is required.'']
          else if length trimmedUsername < 3
            then Inr [''Username must be at least 3 characters long.'']
          else if length trimmedUsername > 30
            then Inr [''Username must be 30 characters or less.'']
          else Inr [])"

text \<open>
  \<^verbatim>\<open>validateAuthPayload({ email, password, username }, { requireUsername })\<close>: the
  returned \<^verbatim>\<open>errors\<close> array, or the exception that leaves the function.
\<close>

definition validateAuthPayload :: "payload \<Rightarrow> bool \<Rightarrow> js_error + string list" where
  "validateAuthPayload p requireUsername =
     (case email_checks (email p) of
        Inl e \<Rightarrow> Inl e
      | Inr errors1 \<Rightarrow>
          (case password_checks (password p) of
             Inl e \<Rightarrow> Inl e
           | Inr errors2 \<Rightarrow>
               if requireUsername then
                 (case username_checks (username p) of
                    Inl e \<Rightarrow> Inl e
                  | Inr errors3 \<Rightarrow> Inr (errors1 @ errors2 @ errors3))
               else Inr (errors1 @ errors2)))"

section \<open>Library primitives\<close>

text \<open>
  What the handlers call outside the repository: \<^verbatim>\<open>String.prototype.toLowerCase\<close>
  (the runtime's Unicode case mapping), \<^verbatim>\<open>bcrypt.hash\<close> and \<^verbatim>\<open>bcrypt.compare\<close>,
  \<^verbatim>\<open>jwt.sign\<close> and its counterpart \<^verbatim>\<open>jwt.verify\<close>. They are parameters of the
  model. \<open>None\<close> is a rejected promise or a thrown exception. \<^verbatim>\<open>bcrypt.hash\<close> draws a
  random salt, \<^verbatim>\<open>jwt.sign\<close> and \<^verbatim>\<open>jwt.verify\<close> read the clock (in seconds): salt
  and clock are passed in.
\<close>

record sign_options =
  expiresIn :: string

type_synonym claims = "(string \<times> jsval) list"

record ('h, 't) runtime =
  toLowerCase :: "jsstring \<Rightarrow> jsstring"
  bcrypt_hash :: "jsval \<Rightarrow> nat \<Rightarrow> nat \<Rightarrow> 'h option"
  bcrypt_compare :: "jsval \<Rightarrow> 'h \<Rightarrow> bool option"
  jwt_sign :: "claims \<Rightarrow> jsval \<Rightarrow> sign_options \<Rightarrow> nat \<Rightarrow> 't option"
  jwt_verify :: "'t \<Rightarrow> jsval \<Rightarrow> nat \<Rightarrow> claims option"

section \<open>Credential store and responses\<close>

text \<open>An element of the \<^verbatim>\<open>users\<close> array (lines 137-143).\<close>

record 'h user =
  user_id :: nat
  user_username :: jsstring
  user_email :: jsstring
  passwordHash :: 'h
  createdAt :: jsstring

text \<open>\<^verbatim>\<open>res.status(n).json({ success, message, errors, token })\<close>\<close>

record 't response =
  status :: nat
  success :: bool
  message :: string
  errors :: "string list option"
  token :: "'t option"

definition reply :: "nat \<Rightarrow> bool \<Rightarrow> string \<Rightarrow> 't response" where
  "reply code ok msg =
     \<lparr>status = code, success = ok, message = msg, errors = None, token = None\<rparr>"

text \<open>The \<^verbatim>\<open>catch\<close> block of both handlers.\<close>

definition unexpected_error :: "'t response" where
  "unexpected_error = reply 500 False ''An unexpected error occurred.''"

definition validation_failed :: "string list \<Rightarrow> 't response" where
  "validation_failed validationErrors =
     (reply 400 False ''Validation failed.'') \<lparr>errors := Some validationErrors\<rparr>"

section \<open>POST /register\<close>

text \<open>
  The handler of lines 90-158 suspends once, at \<^verbatim>\<open>await bcrypt.hash\<close> (line 135),
  between the duplicate check and the push. It is modelled in the two parts that run
  without interruption. Every exception inside the \<^verbatim>\<open>try\<close> block ends in the
  \<^verbatim>\<open>catch\<close> block's response.

  \<open>register_sync\<close> is lines 92-133, on the \<^verbatim>\<open>users\<close> array as it is when the request
  arrives: either the response that ends the handler, or the two normalised strings
  \<^verbatim>\<open>normalizedUsername\<close> and \<^verbatim>\<open>normalizedEmail\<close> that the suspended handler holds.
\<close>

definition register_sync ::
  "('h, 't) runtime \<Rightarrow> 'h user list \<Rightarrow> payload \<Rightarrow> 't response + jsstring \<times> jsstring"
where
  "register_sync rt users body =
     (case validateAuthPayload body True of
        Inl e \<Rightarrow> Inl unexpected_error
      | Inr validationErrors \<Rightarrow>
          if length validationErrors > 0 then Inl (validation_failed validationErrors)
          else
            (case js_trim (email body) of
               Inl e \<Rightarrow> Inl unexpected_error
             | Inr trimmedEmail \<Rightarrow>
            (case js_trim (username body) of
               Inl e \<Rightarrow> Inl unexpected_error
             | Inr normalizedUsername \<Rightarrow>
                 let normalizedEmail = toLowerCase rt trimmedEmail;
                     existingEmail =
                       find (\<lambda>u. toLowerCase rt (user_email u) = normalizedEmail) users;
                     existingUsername =
                       find (\<lambda>u. toLowerCase rt (user_username u) =
                                  toLowerCase rt normalizedUsername) users
                 in
                   if existingEmail \<noteq> None \<and> existingUsername \<noteq> None then
                     Inl (reply 409 False ''Both username and email are already taken.'')
                   else if existingEmail \<noteq> None then
                     Inl (reply 409 False ''An account with this email already exists.'')
                   else if existingUsername \<noteq> None then
                     Inl (reply 409 False ''This username is already taken.'')
                   else Inr (normalizedUsername, normalizedEmail))))"

text \<open>
  \<open>register_resume\<close> is lines 135-150, when the promise of \<^verbatim>\<open>bcrypt.hash\<close> settles, on
  the \<^verbatim>\<open>users\<close> array as it is then (\<^verbatim>\<open>users.length\<close> is read after the
  \<^verbatim>\<open>await\<close>): the array after and the response. \<open>salt\<close> is the randomness of
  \<^verbatim>\<open>bcrypt.hash\<close>, \<open>now\<close> is \<^verbatim>\<open>new Date().toISOString()\<close>.
\<close>

definition register_resume ::
  "('h, 't) runtime \<Rightarrow> nat \<Rightarrow> jsstring \<Rightarrow> 'h user list \<Rightarrow> payload \<Rightarrow> jsstring \<times> jsstring \<Rightarrow>
     'h user list \<times> 't response"
where
  "register_resume rt salt now users body held =
     (case held of
        (normalizedUsername, normalizedEmail) \<Rightarrow>
          (case bcrypt_hash rt (password body) 10 salt of
             None \<Rightarrow> (users, unexpected_error)
           | Some hash \<Rightarrow>
               (users @ [\<lparr>user_id = length users + 1,
                          user_username = normalizedUsername,
                          user_email = normalizedEmail,
                          passwordHash = hash,
                          createdAt = now\<rparr>],
                reply 201 True ''User registered successfully.'')))"

text \<open>
  \<open>register\<close> is the handler run to completion with nothing else in between: the
  \<^verbatim>\<open>users\<close> array before, the array after and the response.
\<close>

definition register ::
  "('h, 't) runtime \<Rightarrow> nat \<Rightarrow> jsstring \<Rightarrow> 'h user list \<Rightarrow> payload \<Rightarrow> 'h user list \<times> 't response"
where
  "register rt salt now users body =
     (case register_sync rt users body of
        Inl res \<Rightarrow> (users, res)
      | Inr held \<Rightarrow> register_resume rt salt now users body held)"

section \<open>POST /login\<close>

text \<open>
  The handler of lines 164-222. \<open>secret\<close> is the module constant \<^verbatim>\<open>JWT_SECRET\<close>,
  \<open>clock\<close> the instant at which \<^verbatim>\<open>jwt.sign\<close> runs. The handler does not write to
  \<^verbatim>\<open>users\<close> and reads it once (line 180), before its own \<^verbatim>\<open>await\<close>; the account
  it found is never changed afterwards, so its response is a function of the array at
  that read.
\<close>

definition token_payload :: "'h user \<Rightarrow> claims" where
  "token_payload user =
     [(''id'', JNumber (int (user_id user))),
      (''username'', JString (user_username user)),
      (''email'', JString (user_email user))]"

definition login ::
  "('h, 't) runtime \<Rightarrow> jsval \<Rightarrow> nat \<Rightarrow> 'h user list \<Rightarrow> payload \<Rightarrow> 't response"
where
  "login rt secret clock users body =
     (case validateAuthPayload body False of
        Inl e \<Rightarrow> unexpected_error
      | Inr validationErrors \<Rightarrow>
          if length validationErrors > 0 then validation_failed validationErrors
          else
            (case js_trim (email body) of
               Inl e \<Rightarrow> unexpected_error
             | Inr trimmedEmail \<Rightarrow>
                 let normalizedEmail = toLowerCase rt trimmedEmail in
                 (case find (\<lambda>u. toLowerCase rt (user_email u) = normalizedEmail) users of
                    None \<Rightarrow> reply 401 False ''Invalid email or password.''
                  | Some user \<Rightarrow>
                      (case bcrypt_compare rt (password body) (passwordHash user) of
                         None \<Rightarrow> unexpected_error
                       | Some passwordMatch \<Rightarrow>
                           if \<not> passwordMatch then reply 401 False ''Invalid email or password.''
                           else
                             (case jwt_sign rt (token_payload user) secret
                                     \<lparr>expiresIn = ''1h''\<rparr> clock of
                                None \<Rightarrow> unexpected_error
                              | Some tok \<Rightarrow>
                                  (reply 200 True ''Login successful.'')
                                    \<lparr>token := Some tok\<rparr>)))))"

section \<open>Startup and the request loop\<close>

text \<open>
  Lines 10-23. \<open>env\<close> is \<^verbatim>\<open>process.env\<close> after \<^verbatim>\<open>dotenv.config()\<close>; a variable
  that is not set reads as \<^verbatim>\<open>undefined\<close>. \<^verbatim>\<open>process.exit(1)\<close> ends the process
  before anything below it runs.
\<close>

record 'h server =
  PORT :: jsval
  JWT_SECRET :: jsval
  users :: "'h user list"

datatype 'h process = Exited int | Listening "'h server"

definition getenv :: "(string \<Rightarrow> jsstring option) \<Rightarrow> string \<Rightarrow> jsval" where
  "getenv env name = (case env name of None \<Rightarrow> JUndefined | Some s \<Rightarrow> JString s)"

definition startup :: "(string \<Rightarrow> jsstring option) \<Rightarrow> 'h process" where
  "startup env =
     (let port = (if truthy (getenv env ''PORT'') then getenv env ''PORT'' else JNumber 5000);
          secret = getenv env ''JWT_SECRET''
      in if \<not> truthy secret then Exited 1
         else Listening \<lparr>PORT = port, JWT_SECRET = secret, users = []\<rparr>)"

text \<open>
  A request as the handlers see it, together with what the handler draws from outside
  (salt and timestamp for a registration, the clock for a login). \<open>handle\<close> runs one
  handler to completion and \<open>serve\<close> a list of requests one after the other; requests
  that overlap at an \<^verbatim>\<open>await\<close> are described by \<open>step\<close> and \<open>run\<close> below.
\<close>

datatype request = PostRegister payload nat jsstring | PostLogin payload nat

fun handle :: "('h, 't) runtime \<Rightarrow> 'h server \<Rightarrow> request \<Rightarrow> 'h server \<times> 't response" where
  "handle rt srv (PostRegister body salt now) =
     (case register rt salt now (users srv) body of
        (users', res) \<Rightarrow> (srv\<lparr>users := users'\<rparr>, res))"
| "handle rt srv (PostLogin body clock) =
     (srv, login rt (JWT_SECRET srv) clock (users srv) body)"

definition serve :: "('h, 't) runtime \<Rightarrow> 'h server \<Rightarrow> request list \<Rightarrow> 'h server" where
  "serve rt srv reqs = foldl (\<lambda>s r. fst (handle rt s r)) srv reqs"

text \<open>
  The event loop. The server together with the registration handlers that are suspended
  at \<^verbatim>\<open>await bcrypt.hash\<close>, each with its request body and the strings it holds. A
  registration request arrives and runs up to the \<^verbatim>\<open>await\<close> (\<open>Arrives\<close>); the hash of
  the \<open>i\<close>-th suspended handler settles and the handler runs to its end (\<open>Settles\<close>, which
  does nothing when there is no such handler); a login request is handled
  (\<open>LoginRequest\<close>). Each step gives the response sent in it, if any.
\<close>

datatype event = Arrives payload | Settles nat nat jsstring | LoginRequest payload nat

type_synonym 'h loop = "'h server \<times> (payload \<times> jsstring \<times> jsstring) list"

fun step :: "('h, 't) runtime \<Rightarrow> 'h loop \<Rightarrow> event \<Rightarrow> 'h loop \<times> 't response option" where
  "step rt (srv, waiting) (Arrives body) =
     (case register_sync rt (users srv) body of
        Inl res \<Rightarrow> ((srv, waiting), Some res)
      | Inr held \<Rightarrow> ((srv, waiting @ [(body, held)]), None))"
| "step rt (srv, waiting) (Settles i salt now) =
     (if i < length waiting then
        (case waiting ! i of
           (body, held) \<Rightarrow>
             (case register_resume rt salt now (users srv) body held of
                (users', res) \<Rightarrow>
                  ((srv\<lparr>users := users'\<rparr>, take i waiting @ drop (Suc i) waiting), Some res)))
      else ((srv, waiting), None))"
| "step rt (srv, waiting) (LoginRequest body clock) =
     ((srv, waiting), Some (login rt (JWT_SECRET srv) clock (users srv) body))"

fun run :: "('h, 't) runtime \<Rightarrow> 'h loop \<Rightarrow> event list \<Rightarrow> 'h loop \<times> 't response option list" where
  "run rt st [] = (st, [])"
| "run rt st (ev # evs) =
     (case step rt st ev of
        (st', r) \<Rightarrow> (case run rt st' evs of (st'', rs) \<Rightarrow> (st'', r # rs)))"

section \<open>Notions of the specification\<close>

text \<open>The messages of \<^verbatim>\<open>validateAuthPayload\<close>, by the field they are about.\<close>

definition email_message :: "string \<Rightarrow> bool" where
  "email_message m \<longleftrightarrow> m \<in> set [''Email is required.'',
     ''Email must be 254 characters or less.'', ''Email format is invalid.'']"

definition password_message :: "string \<Rightarrow> bool" where
  "password_message m \<longleftrightarrow> m \<in> set [''Password is required.'',
     ''Password must be at least 8 characters long.'',
     ''Password must be 128 characters or less.'']"

definition username_message :: "string \<Rightarrow> bool" where
  "username_message m \<longleftrightarrow> m \<in> set [''Username is required.'',
     ''Username must be at least 3 characters long.'',
     ''Username must be 30 characters or less.'']"

text \<open>A field that is absent, is not a string, or is blank after trimming.\<close>

fun absent_or_blank :: "jsval \<Rightarrow> bool" where
  "absent_or_blank (JString s) = (trim s = [])"
| "absent_or_blank v = True"

text \<open>
  The uniqueness invariant of the credential store, on the keys the handlers compare:
  no two accounts have the same lower-cased email, no two the same lower-cased username,
  every stored email is the normalised form (trimmed, then lower-cased) of a string and
  every stored username is trimmed.
\<close>

definition store_inv :: "('h, 't) runtime \<Rightarrow> 'h user list \<Rightarrow> bool" where
  "store_inv rt us \<longleftrightarrow>
     distinct (map (\<lambda>u. toLowerCase rt (user_email u)) us) \<and>
     distinct (map (\<lambda>u. toLowerCase rt (user_username u)) us) \<and>
     list_all (\<lambda>u. \<exists>e. user_email u = toLowerCase rt (trim e)) us \<and>
     list_all (\<lambda>u. trim (user_username u) = user_username u) us"

section \<open>An instance of the primitives\<close>

text \<open>
  \<^verbatim>\<open>toLowerCase\<close> on Basic Latin and on U+0130 (capital I with dot above, whose lower
  case is the two code units U+0069 U+0307); every other code unit is left as it is.
  Hashes and tokens are symbolic terms that record what was hashed and what was signed.
  Signing follows \<^verbatim>\<open>jsonwebtoken\<close>: for an object payload it appends the claim
  \<^verbatim>\<open>iat\<close> (the clock) and, for \<^verbatim>\<open>expiresIn: "1h"\<close>, the claim \<^verbatim>\<open>exp\<close> (one hour
  later); verification returns the whole payload until \<^verbatim>\<open>exp\<close>. The instance knows
  no other time span. This instance serves the examples below.
\<close>

definition lower_unit :: "16 word \<Rightarrow> jsstring" where
  "lower_unit c =
     (if 0x41 \<le> c \<and> c \<le> 0x5A then [c + 0x20]
      else if c = 0x130 then [0x69, 0x307]
      else [c])"

definition toLowerCase_latin :: "jsstring \<Rightarrow> jsstring" where
  "toLowerCase_latin s = concat (map lower_unit s)"

datatype sample_hash = Hashed jsstring nat nat

datatype sample_token = Signed claims jsval nat

definition sample_runtime :: "(sample_hash, sample_token) runtime" where
  "sample_runtime =
     \<lparr>toLowerCase = toLowerCase_latin,
      bcrypt_hash = (\<lambda>data rounds salt.
        case data of JString s \<Rightarrow> Some (Hashed s rounds salt) | _ \<Rightarrow> None),
      bcrypt_compare = (\<lambda>data h.
        case data of
          JString s \<Rightarrow> (case h of Hashed s' rounds salt \<Rightarrow> Some (s = s'))
        | _ \<Rightarrow> None),
      jwt_sign = (\<lambda>c secret opts clock.
        if truthy secret \<and> expiresIn opts = ''1h''
        then Some (Signed (c @ [(''iat'', JNumber (int clock)),
                                (''exp'', JNumber (int clock + 3600))])
                     secret (clock + 3600))
        else None),
      jwt_verify = (\<lambda>tok secret clock.
        case tok of
          Signed c s exp \<Rightarrow> if s = secret \<and> clock < exp then Some c else None)\<rparr>"

text \<open>Sample data for the examples: two stored accounts, a server, requests.\<close>

abbreviation alice :: "sample_hash user" where
  "alice \<equiv> \<lparr>user_id = 1, user_username = js ''alice'', user_email = js ''a@example.com'',
     passwordHash = Hashed (js ''password123'') 10 7,
     createdAt = js ''2026-01-01T00:00:00.000Z''\<rparr>"

abbreviation bob :: "sample_hash user" where
  "bob \<equiv> \<lparr>user_id = 2, user_username = js ''Bob'', user_email = js ''bob@example.com'',
     passwordHash = Hashed (js ''hunter2hunter2'') 10 8,
     createdAt = js ''2026-01-02T00:00:00.000Z''\<rparr>"

abbreviation fresh_server :: "sample_hash server" where
  "fresh_server \<equiv> \<lparr>PORT = JNumber 5000, JWT_SECRET = JString (js ''s3cret''), users = []\<rparr>"

abbreviation register_alice :: payload where
  "register_alice \<equiv> \<lparr>email = JString (js ''A@Example.com''),
     password = JString (js ''password123''), username = JString (js ''alice'')\<rparr>"

abbreviation register_alicia :: payload where
  "register_alicia \<equiv> \<lparr>email = JString (js ''a@example.com''),
     password = JString (js ''otherpass99''), username = JString (js ''alicia'')\<rparr>"

abbreviation alicia :: "sample_hash user" where
  "alicia \<equiv> \<lparr>user_id = 2, user_username = js ''alicia'', user_email = js ''a@example.com'',
     passwordHash = Hashed (js ''otherpass99'') 10 8,
     createdAt = js ''2026-01-02T00:00:00.000Z''\<rparr>"

abbreviation login_alice :: payload where
  "login_alice \<equiv> \<lparr>email = JString (js ''a@example.com''),
     password = JString (js ''password123''), username = JUndefined\<rparr>"

section \<open>Validation: auxiliary facts\<close>

lemma trim_Nil [simp]: "trim [] = []"
  by (simp add: trim_def)

lemma email_checks_cases:
  "email_checks v = Inr [] \<or> email_checks v = Inr [''Email is required.''] \<or>
   email_checks v = Inr [''Email must be 254 characters or less.''] \<or>
   email_checks v = Inr [''Email format is invalid.'']"
  by (cases v) (simp_all add: email_checks_def)

lemma password_checks_cases:
  "password_checks v = Inr [] \<or> password_checks v = Inr [''Password is required.''] \<or>
   password_checks v = Inr [''Password must be at least 8 characters long.''] \<or>
   password_checks v = Inr [''Password must be 128 characters or less.'']"
  by (cases v) (simp_all add: password_checks_def)

lemma username_checks_cases:
  "username_checks v = Inr [] \<or> username_checks v = Inr [''Username is required.''] \<or>
   username_checks v = Inr [''Username must be at least 3 characters long.''] \<or>
   username_checks v = Inr [''Username must be 30 characters or less.'']"
  by (cases v) (simp_all add: username_checks_def)

lemma email_checks_messages:
  "email_checks v = Inr es \<Longrightarrow>
     filter email_message es = es \<and> filter password_message es = [] \<and>
     filter username_message es = []"
  using email_checks_cases [of v]
  by (auto simp: email_message_def password_message_def username_message_def)

lemma password_checks_messages:
  "password_checks v = Inr ps \<Longrightarrow>
     filter password_message ps = ps \<and> filter email_message ps = [] \<and>
     filter username_message ps = []"
  using password_checks_cases [of v]
  by (auto simp: email_message_def password_message_def username_message_def)

lemma username_checks_messages:
  "username_checks v = Inr ns \<Longrightarrow>
     filter username_message ns = ns \<and> filter email_message ns = [] \<and>
     filter password_message ns = []"
  using username_checks_cases [of v]
  by (auto simp: email_message_def password_message_def username_message_def)

text \<open>The routine never throws: its result is the three blocks' messages, in order.\<close>

lemma validateAuthPayload_split:
  "\<exists>es ps ns. email_checks (email p) = Inr es \<and> password_checks (password p) = Inr ps \<and>
     username_checks (username p) = Inr ns \<and>
     validateAuthPayload p r = Inr (es @ ps @ (if r then ns else []))"
  using email_checks_cases [of "email p"] password_checks_cases [of "password p"]
    username_checks_cases [of "username p"]
  by (auto simp: validateAuthPayload_def)

lemma filter_validate:
  assumes "email_checks (email p) = Inr es" "password_checks (password p) = Inr ps"
    "username_checks (username p) = Inr ns"
  shows "filter email_message (es @ ps @ (if r then ns else [])) = es"
    and "filter password_message (es @ ps @ (if r then ns else [])) = ps"
    and "filter username_message (es @ ps @ (if r then ns else [])) = (if r then ns else [])"
  using email_checks_messages [OF assms(1)] password_checks_messages [OF assms(2)]
    username_checks_messages [OF assms(3)]
  by simp_all

lemma email_checks_ok: "email_checks v = Inr [] \<Longrightarrow> \<exists>e. v = JString e"
  by (cases v) (auto simp: email_checks_def split: if_splits)

lemma password_checks_ok: "password_checks v = Inr [] \<Longrightarrow> \<exists>pw. v = JString pw"
  by (cases v) (auto simp: password_checks_def split: if_splits)

lemma username_checks_ok: "username_checks v = Inr [] \<Longrightarrow> \<exists>u. v = JString u"
  by (cases v) (auto simp: username_checks_def split: if_splits)

lemma validateAuthPayload_ok:
  assumes "validateAuthPayload p r = Inr []"
  shows "email_checks (email p) = Inr []" and "password_checks (password p) = Inr []"
    and "r \<Longrightarrow> username_checks (username p) = Inr []"
  using assms validateAuthPayload_split [of p r] by (auto split: if_splits)

lemma validated_strings:
  assumes "validateAuthPayload p r = Inr []"
  shows "\<exists>e. email p = JString e" and "\<exists>pw. password p = JString pw"
    and "r \<Longrightarrow> \<exists>u. username p = JString u"
  using validateAuthPayload_ok [OF assms]
  by (auto dest: email_checks_ok password_checks_ok username_checks_ok)

lemma absent_or_blank_required:
  assumes "absent_or_blank v"
  shows "email_checks v = Inr [''Email is required.'']"
    and "password_checks v = Inr [''Password is required.'']"
    and "username_checks v = Inr [''Username is required.'']"
  using assms
  by (cases v; auto simp: email_checks_def password_checks_def username_checks_def)+

section \<open>Handlers: auxiliary facts\<close>

lemma find_app:
  "find P (xs @ ys) = (case find P xs of None \<Rightarrow> find P ys | Some x \<Rightarrow> Some x)"
  by (induction xs) auto

lemma find_SomeD: "find P xs = Some x \<Longrightarrow> x \<in> set xs \<and> P x"
  by (induction xs) (auto split: if_splits)

text \<open>Trimming is idempotent.\<close>

lemma last_dropWhile: "dropWhile P xs \<noteq> [] \<Longrightarrow> last (dropWhile P xs) = last xs"
  by (induction xs) auto

lemma dropWhile_ends:
  assumes "b = dropWhile P (rev (dropWhile P s))" and "b \<noteq> []"
  shows "\<not> P (hd b)" and "\<not> P (last b)"
proof -
  from assms show "\<not> P (hd b)" by (simp add: hd_dropWhile)
  have a: "dropWhile P s \<noteq> []"
  proof
    assume e: "dropWhile P s = []"
    have "b = []" unfolding assms(1) e by simp
    with assms(2) show False by simp
  qed
  from assms have "last b = last (rev (dropWhile P s))" by (simp add: last_dropWhile)
  also from a have "\<dots> = hd (dropWhile P s)" by (simp add: last_rev)
  finally show "\<not> P (last b)" using a by (simp add: hd_dropWhile)
qed

lemma dropWhile_fixed: "xs = [] \<or> \<not> P (hd xs) \<Longrightarrow> dropWhile P xs = xs"
  by (cases xs) auto

lemma trim_trim [simp]: "trim (trim s) = trim s"
proof -
  define b where "b = dropWhile isWhiteSpace (rev (dropWhile isWhiteSpace s))"
  have t: "trim s = rev b" by (simp add: trim_def b_def)
  have 1: "dropWhile isWhiteSpace (rev b) = rev b"
    using dropWhile_ends(2) [OF b_def] by (intro dropWhile_fixed) (auto simp: hd_rev)
  have 2: "dropWhile isWhiteSpace b = b"
    using dropWhile_ends(1) [OF b_def] by (intro dropWhile_fixed) auto
  show ?thesis unfolding t by (simp add: trim_def 1 2)
qed

text \<open>The synchronous part: what it means to reach the \<^verbatim>\<open>await\<close>.\<close>

lemma register_sync_held:
  assumes "register_sync rt us body = Inr held"
  shows "\<exists>e u. email body = JString e \<and> username body = JString u \<and>
           validateAuthPayload body True = Inr [] \<and>
           (\<forall>a \<in> set us. toLowerCase rt (user_email a) \<noteq> toLowerCase rt (trim e)) \<and>
           (\<forall>a \<in> set us. toLowerCase rt (user_username a) \<noteq> toLowerCase rt (trim u)) \<and>
           held = (trim u, toLowerCase rt (trim e))"
proof -
  obtain errs where v: "validateAuthPayload body True = Inr errs"
    using validateAuthPayload_split [of body True] by blast
  with assms have errs: "errs = []"
    by (auto simp: register_sync_def split: if_splits)
  from validated_strings [OF v [unfolded errs]] obtain e u
    where s: "email body = JString e" "username body = JString u" by auto
  show ?thesis
    using assms
    by (auto simp: register_sync_def v errs s Let_def find_None_iff split: if_splits)
qed

lemma register_sync_answer:
  "register_sync rt us body = Inl res \<Longrightarrow> status res \<noteq> 201 \<and> token res = None"
  by (auto simp: register_sync_def Let_def reply_def unexpected_error_def validation_failed_def
      split: sum.splits if_splits)

text \<open>The resumed part: it appends exactly one account, or answers 500.\<close>

lemma register_resume_cases:
  "(\<exists>h. bcrypt_hash rt (password body) 10 salt = Some h \<and>
      register_resume rt salt now us body (nu, ne) =
        (us @ [\<lparr>user_id = length us + 1, user_username = nu, user_email = ne,
                passwordHash = h, createdAt = now\<rparr>],
         reply 201 True ''User registered successfully.'')) \<or>
   (bcrypt_hash rt (password body) 10 salt = None \<and>
      register_resume rt salt now us body (nu, ne) = (us, unexpected_error))"
  by (cases "bcrypt_hash rt (password body) 10 salt") (simp_all add: register_resume_def)

lemma register_resume_no_token:
  "token (snd (register_resume rt salt now us body held)) = None"
  by (cases held)
    (auto simp: register_resume_def reply_def unexpected_error_def split: option.splits)

text \<open>What a 201 says about the request and the store.\<close>

lemma register_created:
  assumes "status (snd (register rt salt now us body)) = 201"
  shows "\<exists>e u h. email body = JString e \<and> username body = JString u \<and>
           validateAuthPayload body True = Inr [] \<and>
           (\<forall>a \<in> set us. toLowerCase rt (user_email a) \<noteq> toLowerCase rt (trim e)) \<and>
           (\<forall>a \<in> set us. toLowerCase rt (user_username a) \<noteq> toLowerCase rt (trim u)) \<and>
           bcrypt_hash rt (password body) 10 salt = Some h \<and>
           register rt salt now us body =
             (us @ [\<lparr>user_id = length us + 1, user_username = trim u,
                     user_email = toLowerCase rt (trim e), passwordHash = h,
                     createdAt = now\<rparr>],
              reply 201 True ''User registered successfully.'')"
proof (cases "register_sync rt us body")
  case (Inl res)
  with assms register_sync_answer [OF Inl] show ?thesis
    by (simp add: register_def)
next
  case (Inr held)
  from register_sync_held [OF Inr] obtain e u where
    s: "email body = JString e" "username body = JString u"
      "validateAuthPayload body True = Inr []"
      "\<forall>a \<in> set us. toLowerCase rt (user_email a) \<noteq> toLowerCase rt (trim e)"
      "\<forall>a \<in> set us. toLowerCase rt (user_username a) \<noteq> toLowerCase rt (trim u)"
    and held: "held = (trim u, toLowerCase rt (trim e))"
    by blast
  from assms Inr held
  have "status (snd (register_resume rt salt now us body (trim u, toLowerCase rt (trim e)))) = 201"
    by (simp add: register_def)
  with register_resume_cases [of rt body salt now us "trim u" "toLowerCase rt (trim e)"]
  obtain h where "bcrypt_hash rt (password body) 10 salt = Some h"
    and "register_resume rt salt now us body (trim u, toLowerCase rt (trim e)) =
        (us @ [\<lparr>user_id = length us + 1, user_username = trim u,
                user_email = toLowerCase rt (trim e), passwordHash = h, createdAt = now\<rparr>],
         reply 201 True ''User registered successfully.'')"
    by (auto simp: unexpected_error_def reply_def)
  with s Inr held show ?thesis by (simp add: register_def)
qed

lemma register_store:
  "fst (register rt salt now us body) = us \<or>
   status (snd (register rt salt now us body)) = 201"
  by (auto simp: register_def register_resume_def reply_def split: sum.splits option.splits)

lemma register_no_token: "token (snd (register rt salt now us body)) = None"
  by (auto simp: register_def register_resume_no_token dest: register_sync_answer
      split: sum.splits)

lemma login_success:
  assumes "status (login rt secret clock us body) = 200"
  shows "\<exists>e user tok. email body = JString e \<and>
           validateAuthPayload body False = Inr [] \<and>
           find (\<lambda>a. toLowerCase rt (user_email a) = toLowerCase rt (trim e)) us = Some user \<and>
           bcrypt_compare rt (password body) (passwordHash user) = Some True \<and>
           jwt_sign rt (token_payload user) secret \<lparr>expiresIn = ''1h''\<rparr> clock = Some tok \<and>
           login rt secret clock us body =
             (reply 200 True ''Login successful.'') \<lparr>token := Some tok\<rparr>"
proof -
  obtain errs where v: "validateAuthPayload body False = Inr errs"
    using validateAuthPayload_split [of body False] by blast
  with assms have errs: "errs = []"
    by (auto simp: login_def validation_failed_def reply_def split: if_splits)
  from validated_strings(1) [OF v [unfolded errs]] obtain e
    where s: "email body = JString e" by auto
  show ?thesis
    using assms
    by (auto simp: login_def v errs s Let_def reply_def unexpected_error_def
        split: if_splits option.splits)
qed

lemma login_token:
  assumes "token (login rt secret clock us body) = Some tok"
  shows "\<exists>user \<in> set us.
    jwt_sign rt (token_payload user) secret \<lparr>expiresIn = ''1h''\<rparr> clock = Some tok"
  using assms
  by (auto simp: login_def Let_def reply_def unexpected_error_def validation_failed_def
      split: sum.splits if_splits option.splits dest: find_SomeD)

text \<open>The request loop only ever appends to the store and never touches the secret.\<close>

lemma handle_register_users:
  "users (fst (handle rt srv (PostRegister body salt now))) =
     fst (register rt salt now (users srv) body)"
  by (simp split: prod.splits)

lemma handle_appends: "\<exists>more. users (fst (handle rt srv req)) = users srv @ more"
proof (cases req)
  case (PostRegister body salt now)
  show ?thesis
  proof (cases "status (snd (register rt salt now (users srv) body)) = 201")
    case True
    from register_created [OF True] show ?thesis
      unfolding PostRegister handle_register_users by fastforce
  next
    case False
    with register_store [of rt salt now "users srv" body] show ?thesis
      unfolding PostRegister handle_register_users by simp
  qed
next
  case (PostLogin body clock)
  then show ?thesis by simp
qed

lemma handle_secret: "JWT_SECRET (fst (handle rt srv req)) = JWT_SECRET srv"
  by (cases req) (simp_all split: prod.splits)

lemma serve_snoc: "serve rt srv (reqs @ [req]) = fst (handle rt (serve rt srv reqs) req)"
  by (simp add: serve_def)

lemma serve_appends: "\<exists>more. users (serve rt srv reqs) = users srv @ more"
proof (induction reqs rule: rev_induct)
  case Nil
  show ?case by (simp add: serve_def)
next
  case (snoc req reqs)
  then obtain more where m: "users (serve rt srv reqs) = users srv @ more" by blast
  from handle_appends [of rt "serve rt srv reqs" req] obtain more'
    where "users (fst (handle rt (serve rt srv reqs) req)) = users (serve rt srv reqs) @ more'"
    by blast
  with m show ?case unfolding serve_snoc by simp
qed

lemma serve_secret: "JWT_SECRET (serve rt srv reqs) = JWT_SECRET srv"
  by (induction reqs rule: rev_induct) (simp_all add: serve_def handle_secret)

text \<open>
  The event loop only ever appends to the store as well, and a handler that is resumed
  as soon as it is suspended is \<open>handle\<close>.
\<close>

lemma step_appends:
  "\<exists>more. users (fst (fst (step rt (srv, waiting) ev))) = users srv @ more"
proof (cases ev)
  case (Arrives body)
  then show ?thesis by (simp split: sum.splits)
next
  case (Settles i salt now)
  show ?thesis
  proof (cases "i < length waiting")
    case True
    obtain body nu ne where w: "waiting ! i = (body, nu, ne)"
      by (cases "waiting ! i") auto
    from register_resume_cases [of rt body salt now "users srv" nu ne] True w
    show ?thesis unfolding Settles by auto
  next
    case False
    then show ?thesis unfolding Settles by simp
  qed
next
  case (LoginRequest body clock)
  then show ?thesis by simp
qed

lemma run_appends:
  "\<exists>more. users (fst (fst (run rt (srv, waiting) evs))) = users srv @ more"
proof (induction evs arbitrary: srv waiting)
  case Nil
  show ?case by simp
next
  case (Cons ev evs)
  obtain srv' waiting' r where s: "step rt (srv, waiting) ev = ((srv', waiting'), r)"
    by (metis surj_pair)
  from step_appends [of rt srv waiting ev] s obtain m1 where "users srv' = users srv @ m1"
    by auto
  moreover from Cons [of srv' waiting'] obtain m2
    where "users (fst (fst (run rt (srv', waiting') evs))) = users srv' @ m2" by blast
  ultimately show ?case by (auto simp: s split: prod.splits)
qed

lemma handle_as_steps:
  "fst (run rt (srv, []) [Arrives body, Settles 0 salt now]) =
     (fst (handle rt srv (PostRegister body salt now)), [])"
  by (auto simp: register_def split: sum.splits prod.splits)

text \<open>Preservation of the store invariant by whole handlers, for an idempotent case mapping.\<close>

lemma register_preserves_inv:
  assumes idem: "\<And>s. toLowerCase rt (toLowerCase rt s) = toLowerCase rt s"
    and inv: "store_inv rt us"
  shows "store_inv rt (fst (register rt salt now us body))"
proof (cases "status (snd (register rt salt now us body)) = 201")
  case False
  with register_store [of rt salt now us body] inv show ?thesis by simp
next
  case True
  from register_created [OF True] obtain e u h where
    fe: "\<forall>a \<in> set us. toLowerCase rt (user_email a) \<noteq> toLowerCase rt (trim e)"
    and fu: "\<forall>a \<in> set us. toLowerCase rt (user_username a) \<noteq> toLowerCase rt (trim u)"
    and r: "fst (register rt salt now us body) =
      us @ [\<lparr>user_id = length us + 1, user_username = trim u,
        user_email = toLowerCase rt (trim e), passwordHash = h, createdAt = now\<rparr>]"
    by fastforce
  from inv fe fu show ?thesis
    unfolding r store_inv_def by (auto simp: idem)
qed

lemma handle_preserves_inv:
  assumes idem: "\<And>s. toLowerCase rt (toLowerCase rt s) = toLowerCase rt s"
    and inv: "store_inv rt (users srv)"
  shows "store_inv rt (users (fst (handle rt srv req)))"
proof (cases req)
  case (PostRegister body salt now)
  with register_preserves_inv [OF idem inv, of salt now body] show ?thesis
    by (simp only: handle_register_users)
next
  case (PostLogin body clock)
  with inv show ?thesis by simp
qed

text \<open>
  When no two handlers overlap, every store reached from the empty one keeps the
  invariant.
\<close>

lemma serve_preserves_inv:
  assumes idem: "\<And>s. toLowerCase rt (toLowerCase rt s) = toLowerCase rt s"
    and inv: "store_inv rt (users srv)"
  shows "store_inv rt (users (serve rt srv reqs))"
proof (induction reqs rule: rev_induct)
  case Nil
  from inv show ?case by (simp add: serve_def)
next
  case (snoc req reqs)
  then show ?case
    unfolding serve_snoc by (rule handle_preserves_inv [OF idem])
qed

lemma serve_from_empty_inv:
  assumes "\<And>s. toLowerCase rt (toLowerCase rt s) = toLowerCase rt s"
    and "users srv = []"
  shows "store_inv rt (users (serve rt srv reqs))"
  using assms(2) by (intro serve_preserves_inv assms(1)) (simp add: store_inv_def)

text \<open>Under the invariant the stored fields themselves are pairwise different.\<close>

lemma distinct_map_outer: "distinct (map (\<lambda>x. f (g x)) xs) \<Longrightarrow> distinct (map g xs)"
  by (induction xs) auto

lemma store_inv_fields:
  "store_inv rt us \<Longrightarrow> distinct (map user_email us) \<and> distinct (map user_username us)"
  unfolding store_inv_def by (blast intro: distinct_map_outer)

section \<open>The sample primitives meet their contracts\<close>

lemma lower_unit_fixed: "x \<in> set (lower_unit c) \<Longrightarrow> lower_unit x = [x]"
  unfolding lower_unit_def
  by (auto split: if_splits simp: word_le_nat_alt unat_word_ariths)

lemma toLowerCase_latin_fixed:
  "(\<And>x. x \<in> set xs \<Longrightarrow> lower_unit x = [x]) \<Longrightarrow> toLowerCase_latin xs = xs"
  by (induction xs) (simp_all add: toLowerCase_latin_def)

lemma toLowerCase_latin_idem:
  "toLowerCase_latin (toLowerCase_latin s) = toLowerCase_latin s"
proof (rule toLowerCase_latin_fixed)
  fix x assume "x \<in> set (toLowerCase_latin s)"
  then obtain c where "x \<in> set (lower_unit c)"
    by (auto simp: toLowerCase_latin_def)
  then show "lower_unit x = [x]" by (rule lower_unit_fixed)
qed

lemma sample_idem:
  "toLowerCase sample_runtime (toLowerCase sample_runtime s) = toLowerCase sample_runtime s"
  by (simp add: sample_runtime_def toLowerCase_latin_idem)

lemma sample_bcrypt:
  "bcrypt_hash sample_runtime data rounds salt = Some h \<Longrightarrow>
     bcrypt_compare sample_runtime data h = Some True"
  by (cases data) (auto simp: sample_runtime_def)

lemma sample_jwt_valid:
  "jwt_sign sample_runtime c s \<lparr>expiresIn = ''1h''\<rparr> t = Some tok \<Longrightarrow> t' < t + 3600 \<Longrightarrow>
     jwt_verify sample_runtime tok s t' =
       Some (c @ [(''iat'', JNumber (int t)), (''exp'', JNumber (int t + 3600))])"
  by (auto simp: sample_runtime_def split: if_splits)

lemma sample_jwt_expired:
  "jwt_sign sample_runtime c s \<lparr>expiresIn = ''1h''\<rparr> t = Some tok \<Longrightarrow> t + 3600 \<le> t' \<Longrightarrow>
     jwt_verify sample_runtime tok s t' = None"
  by (auto simp: sample_runtime_def split: if_splits)

section \<open>Registration outcomes\<close>

text \<open>
  Claim C1. When a registration request passes validation, the handler looks the
  normalised email and the normalised username up independently. If some stored account
  matches the email and some stored account (the same or another) matches the username,
  the answer is 409 with the message for both; if only the email matches, 409 with the
  email message; if only the username matches, 409 with the username message; with no
  match no 409 is sent. In each 409 case the store is returned as it was.
\<close>

theorem duplicate_check_three_way:
  fixes rt :: "('h, 't) runtime" and us :: "'h user list"
  defines "emailMatch \<equiv>
      \<lambda>e. \<exists>acc \<in> set us. toLowerCase rt (user_email acc) = toLowerCase rt (trim e)"
    and "usernameMatch \<equiv>
      \<lambda>u. \<exists>acc \<in> set us. toLowerCase rt (user_username acc) = toLowerCase rt (trim u)"
  assumes "validateAuthPayload body True = Inr []"
    and "email body = JString e" and "username body = JString u"
  shows "(emailMatch e \<and> usernameMatch u \<longrightarrow> register rt salt now us body =
            (us, reply 409 False ''Both username and email are already taken.'')) \<and>
         (emailMatch e \<and> \<not> usernameMatch u \<longrightarrow> register rt salt now us body =
            (us, reply 409 False ''An account with this email already exists.'')) \<and>
         (\<not> emailMatch e \<and> usernameMatch u \<longrightarrow> register rt salt now us body =
            (us, reply 409 False ''This username is already taken.'')) \<and>
         (\<not> emailMatch e \<and> \<not> usernameMatch u \<longrightarrow>
            status (snd (register rt salt now us body)) \<noteq> 409)"
proof -
  have e: "find (\<lambda>a. toLowerCase rt (user_email a) = toLowerCase rt (trim e)) us \<noteq> None
      \<longleftrightarrow> emailMatch e"
    unfolding emailMatch_def by (auto simp: find_None_iff)
  have u: "find (\<lambda>a. toLowerCase rt (user_username a) = toLowerCase rt (trim u)) us \<noteq> None
      \<longleftrightarrow> usernameMatch u"
    unfolding usernameMatch_def by (auto simp: find_None_iff)
  show ?thesis
    using e u
    by (simp add: register_def register_sync_def register_resume_def assms(3,4,5) Let_def
        reply_def unexpected_error_def split: option.splits)
qed

text \<open>
  An instance: the email of the request is Alice's, its username is Bob's in another
  case, so two different accounts match and the answer is the message for both.
\<close>

theorem duplicate_check_three_way_witness:
  "validateAuthPayload \<lparr>email = JString (js '' A@Example.com ''),
       password = JString (js ''correct horse''), username = JString (js ''BOB'')\<rparr> True = Inr [] \<and>
   register sample_runtime 9 (js ''2026-01-03T00:00:00.000Z'') [alice, bob]
     \<lparr>email = JString (js '' A@Example.com ''), password = JString (js ''correct horse''),
      username = JString (js ''BOB'')\<rparr> =
     ([alice, bob],
      (reply 409 False ''Both username and email are already taken.'' :: sample_token response))"
proof -
  let ?body = "\<lparr>email = JString (js '' A@Example.com ''),
       password = JString (js ''correct horse''), username = JString (js ''BOB'')\<rparr>"
  have v: "validateAuthPayload ?body True = Inr []"
    by code_simp
  have e: "\<exists>acc \<in> set [alice, bob]. toLowerCase sample_runtime (user_email acc) =
      toLowerCase sample_runtime (trim (js '' A@Example.com ''))"
    by code_simp
  have u: "\<exists>acc \<in> set [alice, bob]. toLowerCase sample_runtime (user_username acc) =
      toLowerCase sample_runtime (trim (js ''BOB''))"
    by code_simp
  from duplicate_check_three_way [where rt = sample_runtime and us = "[alice, bob]"
      and body = ?body and e = "js '' A@Example.com ''" and u = "js ''BOB''" and salt = 9
      and now = "js ''2026-01-03T00:00:00.000Z''", OF v] e u v
  show ?thesis by simp
qed

text \<open>
  Claim C3. A registration that is not answered with 201 (a validation failure, any of
  the three duplicate answers, or an unexpected error) returns the store exactly as it
  received it: nothing is appended and no account is changed.
\<close>

theorem failed_registration_keeps_store:
  assumes "status (snd (register rt salt now us body)) \<noteq> 201"
  shows "fst (register rt salt now us body) = us"
  using assms register_store [of rt salt now us body] by simp

text \<open>An instance: a second registration with Alice's email, and one with a short username.\<close>

theorem failed_registration_keeps_store_witness:
  "status (snd (register sample_runtime 9 (js ''2026-01-03T00:00:00.000Z'') [alice, bob]
      \<lparr>email = JString (js ''a@example.com''), password = JString (js ''password123''),
       username = JString (js ''alice2'')\<rparr> :: _ \<times> sample_token response)) = 409 \<and>
   fst (register sample_runtime 9 (js ''2026-01-03T00:00:00.000Z'') [alice, bob]
      \<lparr>email = JString (js ''a@example.com''), password = JString (js ''password123''),
       username = JString (js ''alice2'')\<rparr> :: _ \<times> sample_token response) = [alice, bob]"
proof -
  let ?r = "register sample_runtime 9 (js ''2026-01-03T00:00:00.000Z'') [alice, bob]
      \<lparr>email = JString (js ''a@example.com''), password = JString (js ''password123''),
       username = JString (js ''alice2'')\<rparr> :: _ \<times> sample_token response"
  have s: "status (snd ?r) = 409"
    by code_simp
  then have "status (snd ?r) \<noteq> 201" by simp
  from failed_registration_keeps_store [OF this] s show ?thesis by simp
qed

section \<open>Login outcomes\<close>

text \<open>
  Claim C2. For login requests that pass validation, a request whose normalised email
  is not in the store and a request whose email is found but whose password the
  verification primitive rejects get the same response: status 401, success false, the
  message "Invalid email or password.", no error list and no token.
\<close>

theorem login_failures_indistinguishable:
  assumes "validateAuthPayload body False = Inr []"
    and "validateAuthPayload body' False = Inr []"
    and "email body = JString e"
    and "find (\<lambda>a. toLowerCase rt (user_email a) = toLowerCase rt (trim e)) us = None"
    and "email body' = JString e'"
    and "find (\<lambda>a. toLowerCase rt (user_email a) = toLowerCase rt (trim e')) us' = Some acc"
    and "bcrypt_compare rt (password body') (passwordHash acc) = Some False"
  shows "login rt secret clock us body = login rt secret clock' us' body' \<and>
         login rt secret clock us body =
           \<lparr>status = 401, success = False, message = ''Invalid email or password.'',
            errors = None, token = None\<rparr>"
  using assms by (simp add: login_def reply_def)

text \<open>An instance: an unknown email, and Alice's email with a wrong password.\<close>

theorem login_failures_indistinguishable_witness:
  "login sample_runtime (JString (js ''s3cret'')) 100 [alice, bob]
     \<lparr>email = JString (js ''nobody@example.com''), password = JString (js ''password123''),
      username = JUndefined\<rparr> =
   login sample_runtime (JString (js ''s3cret'')) 200 [alice, bob]
     \<lparr>email = JString (js ''A@Example.com''), password = JString (js ''wrongpass1''),
      username = JUndefined\<rparr> \<and>
   login sample_runtime (JString (js ''s3cret'')) 100 [alice, bob]
     \<lparr>email = JString (js ''nobody@example.com''), password = JString (js ''password123''),
      username = JUndefined\<rparr> =
     \<lparr>status = 401, success = False, message = ''Invalid email or password.'',
      errors = None, token = None\<rparr>"
proof -
  let ?miss = "\<lparr>email = JString (js ''nobody@example.com''),
    password = JString (js ''password123''), username = JUndefined\<rparr>"
  let ?wrong = "\<lparr>email = JString (js ''A@Example.com''),
    password = JString (js ''wrongpass1''), username = JUndefined\<rparr>"
  have v1: "validateAuthPayload ?miss False = Inr []"
    by code_simp
  have v2: "validateAuthPayload ?wrong False = Inr []"
    by code_simp
  have f1: "find (\<lambda>a. toLowerCase sample_runtime (user_email a) =
      toLowerCase sample_runtime (trim (js ''nobody@example.com''))) [alice, bob] = None"
    by code_simp
  have f2: "find (\<lambda>a. toLowerCase sample_runtime (user_email a) =
      toLowerCase sample_runtime (trim (js ''A@Example.com''))) [alice, bob] = Some alice"
    by code_simp
  have c: "bcrypt_compare sample_runtime (password ?wrong) (passwordHash alice) = Some False"
    by code_simp
  have e1: "email ?miss = JString (js ''nobody@example.com'')" by simp
  have e2: "email ?wrong = JString (js ''A@Example.com'')" by simp
  show ?thesis
    by (rule login_failures_indistinguishable [OF v1 v2 e1 f1 e2 f2 c])
qed


text \<open>
  Claim C4, as amended. When a login is answered with 200, the request's normalised
  email found an account, the verification primitive accepted the password against that
  account's hash, and the token in the response is what \<^verbatim>\<open>jwt.sign\<close> returned for
  the payload with exactly the three properties \<^verbatim>\<open>id\<close>, \<^verbatim>\<open>username\<close> and
  \<^verbatim>\<open>email\<close> of that account (the password hash is not among them), the server's
  secret and the fixed option \<^verbatim>\<open>expiresIn: "1h"\<close>. The signing library adds its own
  claims: for primitives that, like \<^verbatim>\<open>jsonwebtoken\<close>, append \<^verbatim>\<open>iat\<close> (the instant
  of signing) and \<^verbatim>\<open>exp\<close> (one hour later) and accept the token until \<^verbatim>\<open>exp\<close>,
  verifying the issued token within the hour yields those three claims followed by
  \<^verbatim>\<open>iat\<close> and \<^verbatim>\<open>exp\<close> and nothing else, and from then on nothing. (Verification
  does not yield the three claims alone, see the example after the instance.)
\<close>

theorem login_token_claims:
  assumes valid: "\<And>c s t tok t'.
      jwt_sign rt c s \<lparr>expiresIn = ''1h''\<rparr> t = Some tok \<Longrightarrow> t' < t + 3600 \<Longrightarrow>
      jwt_verify rt tok s t' =
        Some (c @ [(''iat'', JNumber (int t)), (''exp'', JNumber (int t + 3600))])"
    and expired: "\<And>c s t tok t'.
      jwt_sign rt c s \<lparr>expiresIn = ''1h''\<rparr> t = Some tok \<Longrightarrow> t + 3600 \<le> t' \<Longrightarrow>
      jwt_verify rt tok s t' = None"
    and ok: "status (login rt secret clock us body) = 200"
  shows "\<exists>e user tok. email body = JString e \<and>
           find (\<lambda>a. toLowerCase rt (user_email a) = toLowerCase rt (trim e)) us = Some user \<and>
           bcrypt_compare rt (password body) (passwordHash user) = Some True \<and>
           token (login rt secret clock us body) = Some tok \<and>
           jwt_sign rt [(''id'', JNumber (int (user_id user))),
                        (''username'', JString (user_username user)),
                        (''email'', JString (user_email user))]
             secret \<lparr>expiresIn = ''1h''\<rparr> clock = Some tok \<and>
           (\<forall>t' < clock + 3600. jwt_verify rt tok secret t' =
             Some [(''id'', JNumber (int (user_id user))),
                   (''username'', JString (user_username user)),
                   (''email'', JString (user_email user)),
                   (''iat'', JNumber (int clock)),
                   (''exp'', JNumber (int clock + 3600))]) \<and>
           (\<forall>t' \<ge> clock + 3600. jwt_verify rt tok secret t' = None)"
proof -
  from login_success [OF ok] obtain e user tok where
    "email body = JString e"
    "find (\<lambda>a. toLowerCase rt (user_email a) = toLowerCase rt (trim e)) us = Some user"
    "bcrypt_compare rt (password body) (passwordHash user) = Some True"
    and sg: "jwt_sign rt (token_payload user) secret \<lparr>expiresIn = ''1h''\<rparr> clock = Some tok"
    and "login rt secret clock us body =
      (reply 200 True ''Login successful.'') \<lparr>token := Some tok\<rparr>"
    by blast
  moreover have "jwt_verify rt tok secret t' = Some (token_payload user @
      [(''iat'', JNumber (int clock)), (''exp'', JNumber (int clock + 3600))])"
    if "t' < clock + 3600" for t'
    using sg that by (rule valid)
  moreover have "jwt_verify rt tok secret t' = None" if "clock + 3600 \<le> t'" for t'
    using sg that by (rule expired)
  ultimately show ?thesis
    unfolding token_payload_def by (intro exI [of _ e] exI [of _ user] exI [of _ tok]) simp
qed

text \<open>
  An instance: Alice logs in at instant 1000; at instant 2000 the token verifies to her
  id, username and email followed by \<^verbatim>\<open>iat\<close> and \<^verbatim>\<open>exp\<close>, at instant 4600 it has
  expired.
\<close>

theorem login_token_claims_witness:
  "status (login sample_runtime (JString (js ''s3cret'')) 1000 [alice, bob] login_alice) = 200 \<and>
   (\<exists>tok. token (login sample_runtime (JString (js ''s3cret'')) 1000 [alice, bob] login_alice)
        = Some tok \<and>
      jwt_verify sample_runtime tok (JString (js ''s3cret'')) 2000 =
        Some [(''id'', JNumber 1), (''username'', JString (js ''alice'')),
              (''email'', JString (js ''a@example.com'')),
              (''iat'', JNumber 1000), (''exp'', JNumber 4600)] \<and>
      jwt_verify sample_runtime tok (JString (js ''s3cret'')) 4600 = None)"
proof -
  let ?five = "\<lambda>user. [(''id'', JNumber (int (user_id user))),
      (''username'', JString (user_username user)),
      (''email'', JString (user_email user)),
      (''iat'', JNumber (int 1000)), (''exp'', JNumber (int 1000 + 3600))]"
  have ok: "status (login sample_runtime (JString (js ''s3cret'')) 1000 [alice, bob]
      login_alice) = 200"
    by code_simp
  have f: "find (\<lambda>a. toLowerCase sample_runtime (user_email a) =
      toLowerCase sample_runtime (trim (js ''a@example.com''))) [alice, bob] = Some alice"
    by code_simp
  have "\<exists>e user tok. email login_alice = JString e \<and>
      find (\<lambda>a. toLowerCase sample_runtime (user_email a) =
        toLowerCase sample_runtime (trim e)) [alice, bob] = Some user \<and>
      bcrypt_compare sample_runtime (password login_alice) (passwordHash user) = Some True \<and>
      token (login sample_runtime (JString (js ''s3cret'')) 1000 [alice, bob] login_alice)
        = Some tok \<and>
      jwt_sign sample_runtime [(''id'', JNumber (int (user_id user))),
          (''username'', JString (user_username user)),
          (''email'', JString (user_email user))]
        (JString (js ''s3cret'')) \<lparr>expiresIn = ''1h''\<rparr> 1000 = Some tok \<and>
      (\<forall>t' < 1000 + 3600. jwt_verify sample_runtime tok (JString (js ''s3cret'')) t' =
        Some (?five user)) \<and>
      (\<forall>t' \<ge> 1000 + 3600. jwt_verify sample_runtime tok (JString (js ''s3cret'')) t' = None)"
  proof (rule login_token_claims)
    show "jwt_verify sample_runtime tok s t' =
        Some (c @ [(''iat'', JNumber (int t)), (''exp'', JNumber (int t + 3600))])"
      if "jwt_sign sample_runtime c s \<lparr>expiresIn = ''1h''\<rparr> t = Some tok" and "t' < t + 3600"
      for c s t tok t'
      using that by (rule sample_jwt_valid)
    show "jwt_verify sample_runtime tok s t' = None"
      if "jwt_sign sample_runtime c s \<lparr>expiresIn = ''1h''\<rparr> t = Some tok" and "t + 3600 \<le> t'"
      for c s t tok t'
      using that by (rule sample_jwt_expired)
    show "status (login sample_runtime (JString (js ''s3cret'')) 1000 [alice, bob]
      login_alice) = 200"
      by (rule ok)
  qed
  then obtain e user tok where e: "email login_alice = JString e"
    and u: "find (\<lambda>a. toLowerCase sample_runtime (user_email a) =
        toLowerCase sample_runtime (trim e)) [alice, bob] = Some user"
    and t: "token (login sample_runtime (JString (js ''s3cret'')) 1000 [alice, bob] login_alice)
        = Some tok"
    and v: "\<forall>t' < 1000 + 3600. jwt_verify sample_runtime tok (JString (js ''s3cret'')) t' =
        Some (?five user)"
    and x: "\<forall>t' \<ge> 1000 + 3600. jwt_verify sample_runtime tok (JString (js ''s3cret'')) t' = None"
    by blast
  from e have "e = js ''a@example.com''" by simp
  with u f have user: "user = alice" by simp
  from v have "jwt_verify sample_runtime tok (JString (js ''s3cret'')) 2000 = Some (?five user)"
    by simp
  with user have a: "jwt_verify sample_runtime tok (JString (js ''s3cret'')) 2000 =
        Some [(''id'', JNumber 1), (''username'', JString (js ''alice'')),
              (''email'', JString (js ''a@example.com'')),
              (''iat'', JNumber 1000), (''exp'', JNumber 4600)]"
    by simp
  from x have b: "jwt_verify sample_runtime tok (JString (js ''s3cret'')) 4600 = None"
    by simp
  from ok t a b show ?thesis by blast
qed

text \<open>
  The claim as first stated, that verifying the token yields exactly the three account
  claims, fails for a signer that stamps its tokens as \<^verbatim>\<open>jsonwebtoken\<close> does: the
  token of Alice's login verifies to five claims.
\<close>

theorem verified_token_has_five_claims:
  "token (login sample_runtime (JString (js ''s3cret'')) 1000 [alice, bob] login_alice) =
     Some (Signed [(''id'', JNumber 1), (''username'', JString (js ''alice'')),
                   (''email'', JString (js ''a@example.com'')),
                   (''iat'', JNumber 1000), (''exp'', JNumber 4600)]
             (JString (js ''s3cret'')) 4600) \<and>
   jwt_verify sample_runtime
     (Signed [(''id'', JNumber 1), (''username'', JString (js ''alice'')),
              (''email'', JString (js ''a@example.com'')),
              (''iat'', JNumber 1000), (''exp'', JNumber 4600)]
        (JString (js ''s3cret'')) 4600)
     (JString (js ''s3cret'')) 2000 =
     Some [(''id'', JNumber 1), (''username'', JString (js ''alice'')),
           (''email'', JString (js ''a@example.com'')),
           (''iat'', JNumber 1000), (''exp'', JNumber 4600)] \<and>
   [(''id'', JNumber 1), (''username'', JString (js ''alice'')),
    (''email'', JString (js ''a@example.com'')),
    (''iat'', JNumber 1000), (''exp'', JNumber 4600)] \<noteq>
   [(''id'', JNumber 1), (''username'', JString (js ''alice'')),
    (''email'', JString (js ''a@example.com''))]"
  by code_simp

section \<open>The store invariant\<close>

text \<open>
  Claim C5. The claim is that every reachable store has no two accounts with the same
  normalised email and no two with the same normalised username. The server does not
  keep this: a registration checks for duplicates, suspends at \<^verbatim>\<open>await bcrypt.hash\<close>
  and pushes afterwards, so a second registration of the same address that arrives in
  between passes the check as well. Here Alice's request arrives, then a request with
  her address in another spelling and another username, then both hashes settle: both
  are answered with 201 and the store holds accounts 1 and 2 with the same email. (When
  no two handlers overlap the invariant holds, see \<open>serve_from_empty_inv\<close>.)
\<close>

theorem overlapping_registrations_share_email:
  "run sample_runtime (fresh_server, [])
     [Arrives register_alice, Arrives register_alicia,
      Settles 0 7 (js ''2026-01-01T00:00:00.000Z''),
      Settles 0 8 (js ''2026-01-02T00:00:00.000Z'')] =
     ((fresh_server\<lparr>users := [alice, alicia]\<rparr>, []),
      [None, None,
       Some (reply 201 True ''User registered successfully.''),
       Some (reply 201 True ''User registered successfully.'')]) \<and>
   user_email alice = user_email alicia \<and>
   \<not> distinct (map user_email [alice, alicia]) \<and>
   \<not> store_inv sample_runtime [alice, alicia]"
proof -
  have "run sample_runtime (fresh_server, [])
     [Arrives register_alice, Arrives register_alicia,
      Settles 0 7 (js ''2026-01-01T00:00:00.000Z''),
      Settles 0 8 (js ''2026-01-02T00:00:00.000Z'')] =
     ((fresh_server\<lparr>users := [alice, alicia]\<rparr>, []),
      [None, None,
       Some (reply 201 True ''User registered successfully.'' :: sample_token response),
       Some (reply 201 True ''User registered successfully.'')])"
    by code_simp
  moreover have "\<not> store_inv sample_runtime [alice, alicia]"
    by (simp add: store_inv_def)
  ultimately show ?thesis by simp
qed

section \<open>Startup\<close>

text \<open>
  Claim C6. If \<^verbatim>\<open>JWT_SECRET\<close> is not in the environment, startup ends the process
  with exit code 1; there is no default secret. Whenever startup reaches the listening
  state, the environment held a non-empty \<^verbatim>\<open>JWT_SECRET\<close>, the server's secret is that
  string, and every token that any later response carries was signed with it.
\<close>

theorem startup_requires_secret:
  "(env ''JWT_SECRET'' = None \<longrightarrow> startup env = (Exited 1 :: 'h process)) \<and>
   (\<forall>srv :: 'h server. startup env = Listening srv \<longrightarrow>
      (\<exists>s. env ''JWT_SECRET'' = Some s \<and> s \<noteq> [] \<and> JWT_SECRET srv = JString s \<and>
        (\<forall>(rt :: ('h, 't) runtime) reqs req tok.
           token (snd (handle rt (serve rt srv reqs) req)) = Some tok \<longrightarrow>
           (\<exists>c clock. jwt_sign rt c (JString s) \<lparr>expiresIn = ''1h''\<rparr> clock = Some tok))))"
proof (intro conjI allI impI)
  assume "env ''JWT_SECRET'' = None"
  then show "startup env = (Exited 1 :: 'h process)"
    by (simp add: startup_def getenv_def)
next
  fix srv :: "'h server"
  assume st: "startup env = Listening srv"
  then obtain s where s: "env ''JWT_SECRET'' = Some s" "s \<noteq> []" "JWT_SECRET srv = JString s"
    by (auto simp: startup_def getenv_def Let_def split: option.splits if_splits)
  have "\<exists>c clock. jwt_sign rt c (JString s) \<lparr>expiresIn = ''1h''\<rparr> clock = Some tok"
    if t: "token (snd (handle rt (serve rt srv reqs) req)) = Some tok"
    for rt :: "('h, 't) runtime" and reqs req tok
  proof (cases req)
    case (PostRegister body salt now)
    with t register_no_token [of rt salt now "users (serve rt srv reqs)" body]
    show ?thesis by (simp split: prod.splits)
  next
    case (PostLogin body clock)
    with t have "token (login rt (JString s) clock (users (serve rt srv reqs)) body) = Some tok"
      by (simp add: serve_secret s)
    from login_token [OF this] show ?thesis by blast
  qed
  with s show "\<exists>s. env ''JWT_SECRET'' = Some s \<and> s \<noteq> [] \<and> JWT_SECRET srv = JString s \<and>
        (\<forall>(rt :: ('h, 't) runtime) reqs req tok.
           token (snd (handle rt (serve rt srv reqs) req)) = Some tok \<longrightarrow>
           (\<exists>c clock. jwt_sign rt c (JString s) \<lparr>expiresIn = ''1h''\<rparr> clock = Some tok))"
    by blast
qed

text \<open>
  An instance: an empty environment exits with code 1; with the secret set the server
  listens, and the token of Alice's login is signed with that secret.
\<close>

theorem startup_requires_secret_witness:
  "startup (\<lambda>name. None) = (Exited 1 :: sample_hash process) \<and>
   startup [''JWT_SECRET'' \<mapsto> js ''s3cret''] = Listening fresh_server \<and>
   (\<exists>tok c clock.
      token (snd (handle sample_runtime
        (serve sample_runtime fresh_server
           [PostRegister register_alice 7 (js ''2026-01-01T00:00:00.000Z'')])
        (PostLogin login_alice 1000))) = Some tok \<and>
      jwt_sign sample_runtime c (JString (js ''s3cret'')) \<lparr>expiresIn = ''1h''\<rparr> clock = Some tok)"
proof -
  let ?env = "[''JWT_SECRET'' \<mapsto> js ''s3cret'']"
  let ?res = "snd (handle sample_runtime
        (serve sample_runtime fresh_server
           [PostRegister register_alice 7 (js ''2026-01-01T00:00:00.000Z'')])
        (PostLogin login_alice 1000))"
  have a: "startup (\<lambda>name. None) = (Exited 1 :: sample_hash process)"
    using startup_requires_secret [of "\<lambda>name. None", where 'h = sample_hash and 't = sample_token]
    by simp
  have b: "startup ?env = Listening fresh_server"
    by (simp add: startup_def getenv_def js_def)
  have "token ?res \<noteq> None"
    by code_simp
  then obtain tok where t: "token ?res = Some tok" by blast
  from startup_requires_secret [of ?env, where 'h = sample_hash and 't = sample_token] b
  obtain s where s: "?env ''JWT_SECRET'' = Some s"
    and all: "\<forall>(rt :: (sample_hash, sample_token) runtime) reqs req tok.
      token (snd (handle rt (serve rt fresh_server reqs) req)) = Some tok \<longrightarrow>
      (\<exists>c clock. jwt_sign rt c (JString s) \<lparr>expiresIn = ''1h''\<rparr> clock = Some tok)"
    by blast
  from s have "s = js ''s3cret''" by simp
  with all t have "\<exists>c clock. jwt_sign sample_runtime c (JString (js ''s3cret''))
      \<lparr>expiresIn = ''1h''\<rparr> clock = Some tok"
    by blast
  with a b t show ?thesis by blast
qed


section \<open>Validation results\<close>

text \<open>
  Claim C7, as amended. For every string password whose trimmed length is between 8 and
  128 inclusive, the list returned by the validation routine contains no password
  message. (The routine measures the password after \<^verbatim>\<open>trim()\<close>; a string of raw
  length 8 that is padded with whitespace is rejected, see the example after the
  instance.)
\<close>

theorem password_in_range_accepted:
  assumes "password p = JString pw" and "8 \<le> length (trim pw)" and "length (trim pw) \<le> 128"
  shows "\<exists>errs. validateAuthPayload p r = Inr errs \<and> filter password_message errs = []"
proof -
  obtain es ps ns where c: "email_checks (email p) = Inr es"
    "password_checks (password p) = Inr ps" "username_checks (username p) = Inr ns"
    and v: "validateAuthPayload p r = Inr (es @ ps @ (if r then ns else []))"
    using validateAuthPayload_split by blast
  from assms have "pw \<noteq> []" by auto
  with assms have "password_checks (password p) = Inr []"
    by (auto simp add: password_checks_def)
  with c have "ps = []" by simp
  with v filter_validate(2) [OF c] show ?thesis by simp
qed

text \<open>An instance: a login payload with an eleven-character password.\<close>

theorem password_in_range_accepted_witness:
  "8 \<le> length (trim (js ''password123'')) \<and> length (trim (js ''password123'')) \<le> 128 \<and>
   (\<exists>errs. validateAuthPayload login_alice False = Inr errs \<and>
      filter password_message errs = [])"
proof -
  have a: "8 \<le> length (trim (js ''password123''))"
    by code_simp
  have b: "length (trim (js ''password123'')) \<le> 128"
    by code_simp
  have p: "password login_alice = JString (js ''password123'')" by simp
  from password_in_range_accepted [OF p a b, of False] a b show ?thesis by blast
qed

text \<open>
  The claim as first stated, on the raw length, fails: this password has length 8 and
  is answered with a password message, because only four code units remain after
  trimming.
\<close>

theorem padded_password_rejected:
  "length (js ''   pass '') = 8 \<and>
   validateAuthPayload \<lparr>email = JString (js ''a@example.com''),
       password = JString (js ''   pass ''), username = JUndefined\<rparr> False =
     Inr [''Password must be at least 8 characters long.''] \<and>
   password_message ''Password must be at least 8 characters long.''"
  by code_simp

text \<open>
  Claim C8. The validation routine never reports both the email length message and the
  email format message for one payload; and when the email is a string whose trimmed
  length exceeds 254, the only email message in the result is the length message.
\<close>

theorem long_email_length_message_only:
  "\<exists>errs. validateAuthPayload p r = Inr errs \<and>
     \<not> (''Email must be 254 characters or less.'' \<in> set errs \<and>
        ''Email format is invalid.'' \<in> set errs) \<and>
     (\<forall>e. email p = JString e \<and> 254 < length (trim e) \<longrightarrow>
        filter email_message errs = [''Email must be 254 characters or less.''])"
proof -
  obtain es ps ns where c: "email_checks (email p) = Inr es"
    "password_checks (password p) = Inr ps" "username_checks (username p) = Inr ns"
    and v: "validateAuthPayload p r = Inr (es @ ps @ (if r then ns else []))"
    using validateAuthPayload_split by blast
  let ?errs = "es @ ps @ (if r then ns else [])"
  have f: "filter email_message ?errs = es"
    by (rule filter_validate(1) [OF c])
  have both: "email_message ''Email must be 254 characters or less.''"
    "email_message ''Email format is invalid.''"
    by (simp_all add: email_message_def)
  have excl: "\<not> (''Email must be 254 characters or less.'' \<in> set ?errs \<and>
      ''Email format is invalid.'' \<in> set ?errs)"
  proof
    assume "''Email must be 254 characters or less.'' \<in> set ?errs \<and>
      ''Email format is invalid.'' \<in> set ?errs"
    with both have "''Email must be 254 characters or less.'' \<in> set (filter email_message ?errs)"
      and "''Email format is invalid.'' \<in> set (filter email_message ?errs)"
      by simp_all
    then have "''Email must be 254 characters or less.'' \<in> set es"
      and "''Email format is invalid.'' \<in> set es"
      unfolding f by simp_all
    with email_checks_cases [of "email p"] c(1) show False by auto
  qed
  have long: "filter email_message ?errs = [''Email must be 254 characters or less.'']"
    if "email p = JString e" and "254 < length (trim e)" for e
  proof -
    from that have "e \<noteq> []" by auto
    with that have "email_checks (email p) = Inr [''Email must be 254 characters or less.'']"
      by (auto simp add: email_checks_def)
    with c f show ?thesis by simp
  qed
  from v excl long show ?thesis by blast
qed

text \<open>
  An instance: an email of 255 letters, which has no \<^verbatim>\<open>@\<close> and so would also fail
  the format test, gets the length message alone.
\<close>

theorem long_email_length_message_only_witness:
  "254 < length (trim (replicate 255 (0x61 :: 16 word))) \<and>
   \<not> emailRegex_test (trim (replicate 255 0x61)) \<and>
   (\<exists>errs. validateAuthPayload \<lparr>email = JString (replicate 255 0x61),
        password = JString (js ''password123''), username = JUndefined\<rparr> False = Inr errs \<and>
      filter email_message errs = [''Email must be 254 characters or less.''])"
proof -
  let ?p = "\<lparr>email = JString (replicate 255 0x61),
        password = JString (js ''password123''), username = JUndefined\<rparr>"
  have t: "trim (replicate 255 (0x61 :: 16 word)) = replicate 255 0x61"
    by code_simp
  then have a: "254 < length (trim (replicate 255 (0x61 :: 16 word)))"
    by simp
  have b: "\<not> emailRegex_test (trim (replicate 255 0x61))"
    by code_simp
  have e: "email ?p = JString (replicate 255 0x61)" by simp
  from long_email_length_message_only [of ?p False] e a b show ?thesis by blast
qed

text \<open>
  Claim C10. The validation routine never throws, whatever JSON values the fields hold.
  A field that is absent, is not a string, or is blank after trimming gets exactly one
  message about it, the "is required" one (the username only when it is required), and
  no length or format message. At the handlers, such a payload is answered with the 400
  validation response carrying the routine's messages, not with an error response, and
  the store is untouched.
\<close>

theorem required_fields_reported:
  "\<exists>errs. validateAuthPayload p r = Inr errs \<and>
     (absent_or_blank (email p) \<longrightarrow> filter email_message errs = [''Email is required.'']) \<and>
     (absent_or_blank (password p) \<longrightarrow>
        filter password_message errs = [''Password is required.'']) \<and>
     (r \<and> absent_or_blank (username p) \<longrightarrow>
        filter username_message errs = [''Username is required.'']) \<and>
     (absent_or_blank (email p) \<or> absent_or_blank (password p) \<or>
      r \<and> absent_or_blank (username p) \<longrightarrow>
        (r \<longrightarrow> register rt salt now us p = (us, validation_failed errs)) \<and>
        (\<not> r \<longrightarrow> login rt secret clock us p = validation_failed errs))"
proof -
  obtain es ps ns where c: "email_checks (email p) = Inr es"
    "password_checks (password p) = Inr ps" "username_checks (username p) = Inr ns"
    and v: "validateAuthPayload p r = Inr (es @ ps @ (if r then ns else []))"
    using validateAuthPayload_split by blast
  let ?errs = "es @ ps @ (if r then ns else [])"
  note f = filter_validate [OF c, of r]
  have e: "es = [''Email is required.'']" if "absent_or_blank (email p)"
    using absent_or_blank_required(1) [OF that] c(1) by simp
  have pw: "ps = [''Password is required.'']" if "absent_or_blank (password p)"
    using absent_or_blank_required(2) [OF that] c(2) by simp
  have u: "ns = [''Username is required.'']" if "absent_or_blank (username p)"
    using absent_or_blank_required(3) [OF that] c(3) by simp
  have ne: "?errs \<noteq> []"
    if "absent_or_blank (email p) \<or> absent_or_blank (password p) \<or>
      r \<and> absent_or_blank (username p)"
    using that e pw u by auto
  have reg: "register rt salt now us p = (us, validation_failed ?errs)"
    if "r" and "?errs \<noteq> []"
    using that v by (simp add: register_def register_sync_def)
  have log: "login rt secret clock us p = validation_failed ?errs"
    if "\<not> r" and "?errs \<noteq> []"
    using that v by (simp add: login_def)
  from v f e pw u ne reg log show ?thesis by (intro exI [of _ ?errs]) auto
qed

text \<open>
  An instance: a registration whose email is a number, whose password is an array and
  whose username is three spaces.
\<close>

theorem required_fields_reported_witness:
  "absent_or_blank (JNumber 5) \<and> absent_or_blank (JArray []) \<and>
   absent_or_blank (JString (js ''   '')) \<and>
   register sample_runtime 7 (js ''2026-01-01T00:00:00.000Z'') [alice]
     \<lparr>email = JNumber 5, password = JArray [], username = JString (js ''   '')\<rparr> =
     ([alice], validation_failed
        [''Email is required.'', ''Password is required.'', ''Username is required.''])"
proof -
  let ?p = "\<lparr>email = JNumber 5, password = JArray [], username = JString (js ''   '')\<rparr>"
  have a: "absent_or_blank (email ?p)" "absent_or_blank (password ?p)"
    by simp_all
  have b: "absent_or_blank (JString (js ''   ''))"
    by code_simp
  then have b': "absent_or_blank (username ?p)" by simp
  have v: "validateAuthPayload ?p True =
      Inr [''Email is required.'', ''Password is required.'', ''Username is required.'']"
    by code_simp
  from required_fields_reported [of ?p True sample_runtime 7 "js ''2026-01-01T00:00:00.000Z''"
      "[alice]"] a b'
  obtain errs where "validateAuthPayload ?p True = Inr errs"
    and "register sample_runtime 7 (js ''2026-01-01T00:00:00.000Z'') [alice] ?p =
      ([alice], validation_failed errs)"
    by blast
  with v a b show ?thesis by simp
qed

section \<open>Login after registration\<close>

text \<open>
  Claim C9, as amended. Let the case mapping be idempotent, let the verification
  primitive accept a password against a hash that the hashing primitive made from it,
  and let signing succeed. Take a registration with email \<open>e1\<close> that passed the
  duplicate check on the store \<open>us0\<close> and, when its hash settled, pushed its account and
  was answered with 201, where no account pushed in between (\<open>mid\<close>) has the same
  lower-cased email, as is the case when no other registration overlaps it. Then on
  every later store a login with the same password and an email \<open>e2\<close> that passes the
  email validation itself and that trims and lower-cases to the same string as \<open>e1\<close> is
  answered with 200 and a token for the registered account. (Without the condition that
  \<open>e2\<close> passes validation the statement fails, see the example after the instance:
  lower-casing can change the length of a string.)
\<close>

theorem login_after_registration:
  assumes idem: "\<And>s. toLowerCase rt (toLowerCase rt s) = toLowerCase rt s"
    and bcrypt: "\<And>data salt h. bcrypt_hash rt data 10 salt = Some h \<Longrightarrow>
      bcrypt_compare rt data h = Some True"
    and sign: "\<And>c. jwt_sign rt c secret \<lparr>expiresIn = ''1h''\<rparr> clock \<noteq> None"
    and arrived: "register_sync rt us0
        \<lparr>email = JString e1, password = pw, username = JString u\<rparr> = Inr held"
    and settled: "register_resume rt salt now (us0 @ mid)
        \<lparr>email = JString e1, password = pw, username = JString u\<rparr> held = (us2, res)"
    and created: "status res = 201"
    and alone: "\<forall>a \<in> set mid. toLowerCase rt (user_email a) \<noteq> toLowerCase rt (trim e1)"
    and same: "toLowerCase rt (trim e2) = toLowerCase rt (trim e1)"
    and valid: "email_checks (JString e2) = Inr []"
  shows "\<exists>tok. login rt secret clock (us2 @ later)
             \<lparr>email = JString e2, password = pw, username = any\<rparr> =
           (reply 200 True ''Login successful.'') \<lparr>token := Some tok\<rparr> \<and>
         jwt_sign rt [(''id'', JNumber (int (length (us0 @ mid) + 1))),
                      (''username'', JString (trim u)),
                      (''email'', JString (toLowerCase rt (trim e1)))]
           secret \<lparr>expiresIn = ''1h''\<rparr> clock = Some tok"
proof -
  let ?body = "\<lparr>email = JString e1, password = pw, username = JString u\<rparr>"
  let ?login = "\<lparr>email = JString e2, password = pw, username = any\<rparr>"
  from register_sync_held [OF arrived] have
    v: "validateAuthPayload ?body True = Inr []"
    and fresh: "\<forall>a \<in> set us0. toLowerCase rt (user_email a) \<noteq> toLowerCase rt (trim e1)"
    and held: "held = (trim u, toLowerCase rt (trim e1))"
    by auto
  from settled created held
    register_resume_cases [of rt ?body salt now "us0 @ mid" "trim u" "toLowerCase rt (trim e1)"]
  obtain h where h: "bcrypt_hash rt pw 10 salt = Some h"
    and us2: "us2 = (us0 @ mid) @ [\<lparr>user_id = length (us0 @ mid) + 1,
        user_username = trim u, user_email = toLowerCase rt (trim e1), passwordHash = h,
        createdAt = now\<rparr>]"
    by (auto simp: unexpected_error_def reply_def)
  let ?acc = "\<lparr>user_id = length (us0 @ mid) + 1, user_username = trim u,
    user_email = toLowerCase rt (trim e1), passwordHash = h, createdAt = now\<rparr>"
  from validateAuthPayload_ok(2) [OF v] have "password_checks pw = Inr []" by simp
  with valid have v2: "validateAuthPayload ?login False = Inr []"
    by (simp add: validateAuthPayload_def)
  from fresh have n0: "find (\<lambda>a. toLowerCase rt (user_email a) = toLowerCase rt (trim e1))
      us0 = None"
    by (auto simp: find_None_iff)
  from alone have nm: "find (\<lambda>a. toLowerCase rt (user_email a) = toLowerCase rt (trim e1))
      mid = None"
    by (auto simp: find_None_iff)
  have f: "find (\<lambda>a. toLowerCase rt (user_email a) = toLowerCase rt (trim e2))
      (us2 @ later) = Some ?acc"
    unfolding us2 by (simp add: find_app same idem n0 nm)
  from sign obtain tok where
    tok: "jwt_sign rt (token_payload ?acc) secret \<lparr>expiresIn = ''1h''\<rparr> clock = Some tok"
    by blast
  have "login rt secret clock (us2 @ later) ?login =
      (reply 200 True ''Login successful.'') \<lparr>token := Some tok\<rparr>"
    using bcrypt [OF h] tok by (simp add: login_def v2 f)
  with tok show ?thesis
    by (auto simp: token_payload_def)
qed

text \<open>
  An instance: Alice's request \<^verbatim>\<open>A@Example.com\<close> arrives at the empty store; Bob's
  account is pushed while her handler waits; her account is pushed as the second; she
  logs in as \<^verbatim>\<open>a@example.com\<close>.
\<close>

theorem login_after_registration_witness:
  "register_sync sample_runtime [] register_alice = Inr (js ''alice'', js ''a@example.com'') \<and>
   register_resume sample_runtime 7 (js ''2026-01-01T00:00:00.000Z'') ([] @ [bob\<lparr>user_id := 1\<rparr>])
       register_alice (js ''alice'', js ''a@example.com'') =
     ([bob\<lparr>user_id := 1\<rparr>, alice\<lparr>user_id := 2\<rparr>],
      reply 201 True ''User registered successfully.'') \<and>
   toLowerCase sample_runtime (trim (js ''a@example.com'')) =
     toLowerCase sample_runtime (trim (js ''A@Example.com'')) \<and>
   email_checks (JString (js ''a@example.com'')) = Inr [] \<and>
   (\<exists>tok. login sample_runtime (JString (js ''s3cret'')) 1000
        ([bob\<lparr>user_id := 1\<rparr>, alice\<lparr>user_id := 2\<rparr>] @ []) login_alice =
      (reply 200 True ''Login successful.'') \<lparr>token := Some tok\<rparr>)"
proof -
  have arrived: "register_sync sample_runtime [] register_alice =
      (Inr (js ''alice'', js ''a@example.com'') :: sample_token response + _)"
    by code_simp
  have settled: "register_resume sample_runtime 7 (js ''2026-01-01T00:00:00.000Z'')
      ([] @ [bob\<lparr>user_id := 1\<rparr>]) register_alice (js ''alice'', js ''a@example.com'') =
     ([bob\<lparr>user_id := 1\<rparr>, alice\<lparr>user_id := 2\<rparr>],
      (reply 201 True ''User registered successfully.'' :: sample_token response))"
    by code_simp
  have created: "status (reply 201 True ''User registered successfully.'' ::
      sample_token response) = 201"
    by (simp add: reply_def)
  have alone: "\<forall>a \<in> set [bob\<lparr>user_id := 1\<rparr>]. toLowerCase sample_runtime (user_email a) \<noteq>
      toLowerCase sample_runtime (trim (js ''A@Example.com''))"
    by code_simp
  have same: "toLowerCase sample_runtime (trim (js ''a@example.com'')) =
     toLowerCase sample_runtime (trim (js ''A@Example.com''))"
    by code_simp
  have valid: "email_checks (JString (js ''a@example.com'')) = Inr []"
    by code_simp
  have "\<exists>tok. login sample_runtime (JString (js ''s3cret'')) 1000
        ([bob\<lparr>user_id := 1\<rparr>, alice\<lparr>user_id := 2\<rparr>] @ []) login_alice =
      (reply 200 True ''Login successful.'') \<lparr>token := Some tok\<rparr> \<and>
    jwt_sign sample_runtime [(''id'', JNumber (int (length ([] @ [bob\<lparr>user_id := 1\<rparr>]) + 1))),
        (''username'', JString (trim (js ''alice''))),
        (''email'', JString (toLowerCase sample_runtime (trim (js ''A@Example.com''))))]
      (JString (js ''s3cret'')) \<lparr>expiresIn = ''1h''\<rparr> 1000 = Some tok"
  proof (rule login_after_registration [where rt = sample_runtime and salt = 7
        and now = "js ''2026-01-01T00:00:00.000Z''" and res = "reply 201 True
          ''User registered successfully.''" and held = "(js ''alice'', js ''a@example.com'')"])
    show "toLowerCase sample_runtime (toLowerCase sample_runtime s) =
        toLowerCase sample_runtime s" for s
      by (rule sample_idem)
    show "bcrypt_compare sample_runtime data h = Some True"
      if "bcrypt_hash sample_runtime data 10 salt = Some h" for data salt h
      using that by (rule sample_bcrypt)
    show "jwt_sign sample_runtime c (JString (js ''s3cret'')) \<lparr>expiresIn = ''1h''\<rparr> 1000 \<noteq> None"
      for c
      by (simp add: sample_runtime_def js_def)
    show "register_sync sample_runtime [] \<lparr>email = JString (js ''A@Example.com''),
        password = JString (js ''password123''), username = JString (js ''alice'')\<rparr> =
      (Inr (js ''alice'', js ''a@example.com'') :: sample_token response + _)"
      by (rule arrived)
    show "register_resume sample_runtime 7 (js ''2026-01-01T00:00:00.000Z'')
        ([] @ [bob\<lparr>user_id := 1\<rparr>]) \<lparr>email = JString (js ''A@Example.com''),
        password = JString (js ''password123''), username = JString (js ''alice'')\<rparr>
        (js ''alice'', js ''a@example.com'') =
      ([bob\<lparr>user_id := 1\<rparr>, alice\<lparr>user_id := 2\<rparr>],
       (reply 201 True ''User registered successfully.'' :: sample_token response))"
      by (rule settled)
    show "status (reply 201 True ''User registered successfully.'' ::
      sample_token response) = 201"
      by (rule created)
    show "\<forall>a \<in> set [bob\<lparr>user_id := 1\<rparr>]. toLowerCase sample_runtime (user_email a) \<noteq>
      toLowerCase sample_runtime (trim (js ''A@Example.com''))"
      by (rule alone)
    show "toLowerCase sample_runtime (trim (js ''a@example.com'')) =
     toLowerCase sample_runtime (trim (js ''A@Example.com''))"
      by (rule same)
    show "email_checks (JString (js ''a@example.com'')) = Inr []"
      by (rule valid)
  qed
  with arrived settled same valid show ?thesis by blast
qed

text \<open>
  The claim as first stated fails on a login email that is itself too long. The
  lower case of U+0130 is two code units. Registering an email of 254 code units that
  starts with U+0130 is answered with 201; the email spelt with U+0069 U+0307 instead
  lower-cases to the same string, has 255 code units, and a login with it and the right
  password is answered with 400 and the length message.
\<close>

theorem login_with_longer_spelling_rejected:
  "status (snd (register sample_runtime 7 (js ''2026-01-01T00:00:00.000Z'') []
      \<lparr>email = JString (0x130 # replicate 249 0x61 @ js ''@b.c''),
       password = JString (js ''password123''), username = JString (js ''alice'')\<rparr>
      :: _ \<times> sample_token response)) = 201 \<and>
   toLowerCase sample_runtime (trim ([0x69, 0x307] @ replicate 249 0x61 @ js ''@b.c'')) =
     toLowerCase sample_runtime (trim (0x130 # replicate 249 0x61 @ js ''@b.c'')) \<and>
   login sample_runtime (JString (js ''s3cret'')) 1000
     (fst (register sample_runtime 7 (js ''2026-01-01T00:00:00.000Z'') []
        \<lparr>email = JString (0x130 # replicate 249 0x61 @ js ''@b.c''),
         password = JString (js ''password123''), username = JString (js ''alice'')\<rparr>
        :: _ \<times> sample_token response))
     \<lparr>email = JString ([0x69, 0x307] @ replicate 249 0x61 @ js ''@b.c''),
      password = JString (js ''password123''), username = JUndefined\<rparr> =
     validation_failed [''Email must be 254 characters or less.'']"
  by code_simp

text \<open>
  Outside the condition on \<open>mid\<close>: on the store that two overlapping registrations of
  one address leave behind, the account pushed second cannot log in with its own
  password, because the lookup stops at the first account with that email.
\<close>

lemma overlapped_account_cannot_log_in:
  "login sample_runtime (JString (js ''s3cret'')) 1000 [alice, alicia]
     \<lparr>email = JString (js ''a@example.com''), password = JString (js ''otherpass99''),
      username = JUndefined\<rparr> =
     reply 401 False ''Invalid email or password.''"
  by code_simp

end
